theory Spec2Isabelle
  imports Complex_Main
begin

section \<open>Data model of \<^verbatim>\<open>simulator.py\<close>\<close>

text \<open>
  Python floats are modelled as the real numbers: every arithmetic operation is exact.
  Rounding, overflow to infinity, NaN and the \<^verbatim>\<open>OverflowError\<close> that float
  exponentiation can raise are outside this model. Exceptions are values of a sum type.
\<close>

datatype error = ZeroDivisionError | UnboundLocalError

record Fluid =
  name :: string
  density :: real
  specific_heat :: real
  viscosity :: real
  thermal_conductivity :: real

definition Water :: Fluid where
  "Water = \<lparr>name = ''Water'', density = 998, specific_heat = 4182,
     viscosity = 0.001002, thermal_conductivity = 0.598\<rparr>"

record Simulator =
  fluid :: Fluid
  loop_height :: real
  pipe_diameter :: real
  heater_power :: real
  cooler_temp :: real
  cross_section :: real

text \<open>The constructor \<^verbatim>\<open>NaturalCirculationSimulator.__init__\<close>.\<close>

definition NaturalCirculationSimulator ::
    "Fluid \<Rightarrow> real \<Rightarrow> real \<Rightarrow> real \<Rightarrow> real \<Rightarrow> Simulator" where
  "NaturalCirculationSimulator fl height diameter qpower ctemp =
     \<lparr>fluid = fl, loop_height = height, pipe_diameter = diameter, heater_power = qpower,
      cooler_temp = ctemp, cross_section = pi * (diameter / 2) ^ 2\<rparr>"

text \<open>The dict returned by \<^verbatim>\<open>simulate\<close>; the key \<^verbatim>\<open>"fluid"\<close> is the field \<open>fluid_name\<close>.\<close>

record Result =
  flow_rate_m3_s :: real
  hot_leg_temp_C :: real
  cold_leg_temp_C :: real
  temperature_difference_C :: real
  fluid_name :: string

section \<open>The momentum solver \<^verbatim>\<open>calculate_flow_rate\<close>\<close>

text \<open>Python's true division raises \<^verbatim>\<open>ZeroDivisionError\<close> on a zero divisor.\<close>

definition py_div :: "real \<Rightarrow> real \<Rightarrow> error + real" where
  "py_div x y = (if y = 0 then Inl ZeroDivisionError else Inr (x / y))"

text \<open>Line 70: \<^verbatim>\<open>pressure_head = g * rho * beta * delta_t * self.loop_height\<close>.\<close>

definition pressure_head :: "Simulator \<Rightarrow> real \<Rightarrow> real" where
  "pressure_head sim delta_t =
     9.81 * density (fluid sim) * 0.00021 * delta_t * loop_height sim"

text \<open>Line 81: \<^verbatim>\<open>loop_length = 4 * self.loop_height\<close>.\<close>

definition loop_length :: "Simulator \<Rightarrow> real" where
  "loop_length sim = 4 * loop_height sim"

text \<open>Lines 74 and 89: \<^verbatim>\<open>reynolds = rho * velocity_guess * self.pipe_diameter / self.fluid.viscosity\<close>.\<close>

definition reynolds :: "Simulator \<Rightarrow> real \<Rightarrow> error + real" where
  "reynolds sim velocity_guess =
     py_div (density (fluid sim) * velocity_guess * pipe_diameter sim) (viscosity (fluid sim))"

text \<open>Lines 75-78 and 90-93: the regime switch. The division \<^verbatim>\<open>64 / reynolds\<close> is
  guarded by \<^verbatim>\<open>reynolds > 0\<close>, and \<^verbatim>\<open>reynolds ** 0.25\<close> is only evaluated for
  \<^verbatim>\<open>reynolds >= 2000\<close>.\<close>

definition friction_factor :: "real \<Rightarrow> real" where
  "friction_factor re =
     (if re < 2000 then (if re > 0 then 64 / re else 0.064)
      else 0.316 / (re powr 0.25))"

text \<open>Lines 82 and 94:
  \<^verbatim>\<open>friction_factor * (loop_length / self.pipe_diameter) * (rho * velocity_guess ** 2) / 2\<close>.\<close>

definition pressure_drop :: "Simulator \<Rightarrow> real \<Rightarrow> real \<Rightarrow> error + real" where
  "pressure_drop sim ff velocity_guess =
     (case py_div (loop_length sim) (pipe_diameter sim) of
        Inl e \<Rightarrow> Inl e
      | Inr q \<Rightarrow> Inr (ff * q * (density (fluid sim) * velocity_guess ^ 2) / 2))"

text \<open>Lines 89-95: the residual of the momentum balance at the current velocity guess.\<close>

definition residual :: "Simulator \<Rightarrow> real \<Rightarrow> real \<Rightarrow> error + real" where
  "residual sim head velocity_guess =
     (case reynolds sim velocity_guess of
        Inl e \<Rightarrow> Inl e
      | Inr re \<Rightarrow>
          (case pressure_drop sim (friction_factor re) velocity_guess of
             Inl e \<Rightarrow> Inl e
           | Inr pdrop \<Rightarrow> Inr (head - pdrop)))"

text \<open>Lines 99-100: the Newton-like update, the fixed step at velocity zero, and the floor.\<close>

definition update_velocity :: "Simulator \<Rightarrow> real \<Rightarrow> real \<Rightarrow> error + real" where
  "update_velocity sim res velocity_guess =
     (if velocity_guess \<noteq> 0 then
        (case py_div (density (fluid sim) * velocity_guess * loop_length sim)
                (pipe_diameter sim) of
           Inl e \<Rightarrow> Inl e
         | Inr slope \<Rightarrow>
             (case py_div res slope of
                Inl e \<Rightarrow> Inl e
              | Inr step \<Rightarrow> Inr (max (velocity_guess + step) 0.00001)))
      else Inr (max (velocity_guess + 0.01) 0.00001))"

text \<open>Lines 88-100: \<^verbatim>\<open>for i in range(max_iter)\<close> with its \<^verbatim>\<open>break\<close>; the first
  argument after the head counts the iterations that are left.\<close>

fun velocity_loop :: "Simulator \<Rightarrow> real \<Rightarrow> nat \<Rightarrow> real \<Rightarrow> error + real" where
  "velocity_loop sim head 0 velocity_guess = Inr velocity_guess"
| "velocity_loop sim head (Suc n) velocity_guess =
     (case residual sim head velocity_guess of
        Inl e \<Rightarrow> Inl e
      | Inr res \<Rightarrow>
          if \<bar>res\<bar> < 0.000001 then Inr velocity_guess
          else (case update_velocity sim res velocity_guess of
                  Inl e \<Rightarrow> Inl e
                | Inr v' \<Rightarrow> velocity_loop sim head n v'))"

text \<open>Lines 73-100: the velocity the loop ends with. The friction factor and the pressure
  drop are first computed once at the initial guess (lines 74-82); their values are
  overwritten in the loop, but their divisions can raise.\<close>

definition final_velocity :: "Simulator \<Rightarrow> real \<Rightarrow> error + real" where
  "final_velocity sim delta_t =
     (case reynolds sim 0.1 of
        Inl e \<Rightarrow> Inl e
      | Inr re \<Rightarrow>
          (case pressure_drop sim (friction_factor re) 0.1 of
             Inl e \<Rightarrow> Inl e
           | Inr pdrop \<Rightarrow> velocity_loop sim (pressure_head sim delta_t) 100 0.1))"

text \<open>Lines 102-103: \<^verbatim>\<open>flow_rate = velocity_guess * self.cross_section\<close>.\<close>

definition calculate_flow_rate :: "Simulator \<Rightarrow> real \<Rightarrow> error + real" where
  "calculate_flow_rate sim delta_t =
     (case final_velocity sim delta_t of
        Inl e \<Rightarrow> Inl e
      | Inr v \<Rightarrow> Inr (v * cross_section sim))"

section \<open>The energy coupler \<^verbatim>\<open>simulate\<close>\<close>

text \<open>Lines 119-127: one pass of the outer loop, from the current \<^verbatim>\<open>delta_t_guess\<close> to
  the new one and the flow rate computed on the way.\<close>

definition energy_step :: "Simulator \<Rightarrow> real \<Rightarrow> error + (real \<times> real)" where
  "energy_step sim delta_t_guess =
     (case calculate_flow_rate sim delta_t_guess of
        Inl e \<Rightarrow> Inl e
      | Inr flow_rate \<Rightarrow>
          (let mass_flow = flow_rate * density (fluid sim) in
           case (if mass_flow > 0
                 then py_div (heater_power sim) (mass_flow * specific_heat (fluid sim))
                 else Inr delta_t_guess) of
             Inl e \<Rightarrow> Inl e
           | Inr delta_t_calc \<Rightarrow>
               Inr (0.5 * delta_t_guess + 0.5 * delta_t_calc, flow_rate)))"

text \<open>Line 118: \<^verbatim>\<open>for _ in range(20)\<close>. The state is \<^verbatim>\<open>delta_t_guess\<close> and the
  variable \<^verbatim>\<open>flow_rate\<close>, which is unbound (\<open>None\<close>) until the first pass assigns it.\<close>

fun energy_loop ::
    "Simulator \<Rightarrow> nat \<Rightarrow> real \<times> real option \<Rightarrow> error + (real \<times> real option)" where
  "energy_loop sim 0 st = Inr st"
| "energy_loop sim (Suc n) (delta_t_guess, fr) =
     (case energy_step sim delta_t_guess of
        Inl e \<Rightarrow> Inl e
      | Inr (dt', flow_rate) \<Rightarrow> energy_loop sim n (dt', Some flow_rate))"

text \<open>Lines 105-138. The parameter \<^verbatim>\<open>initial_temp\<close> is not read by the body.\<close>

definition simulate :: "Simulator \<Rightarrow> real \<Rightarrow> error + Result" where
  "simulate sim initial_temp =
     (case energy_loop sim 20 (10, None) of
        Inl e \<Rightarrow> Inl e
      | Inr (delta_t_guess, fr) \<Rightarrow>
          (case fr of
             None \<Rightarrow> Inl UnboundLocalError
           | Some flow_rate \<Rightarrow>
               Inr \<lparr>flow_rate_m3_s = flow_rate,
                    hot_leg_temp_C = cooler_temp sim + delta_t_guess,
                    cold_leg_temp_C = cooler_temp sim,
                    temperature_difference_C = delta_t_guess,
                    fluid_name = name (fluid sim)\<rparr>))"

section \<open>Auxiliary definitions\<close>

text \<open>The inputs the momentum solver is meant for: strictly positive density, viscosity,
  pipe diameter and loop height.\<close>

definition momentum_ok :: "Simulator \<Rightarrow> bool" where
  "momentum_ok sim \<longleftrightarrow> 0 < density (fluid sim) \<and> 0 < viscosity (fluid sim)
     \<and> 0 < pipe_diameter sim \<and> 0 < loop_height sim"

text \<open>The simulator built by \<^verbatim>\<open>main\<close> (lines 142-149).\<close>

definition main_sim :: Simulator where
  "main_sim = NaturalCirculationSimulator Water 2 0.05 1000 20"

text \<open>The formulas of the specification, written from its words, to compare the code with.\<close>

definition spec_reynolds :: "Simulator \<Rightarrow> real \<Rightarrow> real" where
  "spec_reynolds sim v = density (fluid sim) * v * pipe_diameter sim / viscosity (fluid sim)"

definition spec_friction_factor :: "real \<Rightarrow> real" where
  "spec_friction_factor re =
     (if re < 2000 then (if re \<le> 0 then 0.064 else 64 / re) else 0.316 / re powr 0.25)"

definition spec_pressure_drop :: "Simulator \<Rightarrow> real \<Rightarrow> real" where
  "spec_pressure_drop sim v =
     spec_friction_factor (spec_reynolds sim v) * (4 * loop_height sim / pipe_diameter sim)
       * (density (fluid sim) * v\<^sup>2 / 2)"

definition spec_buoyancy_head :: "Simulator \<Rightarrow> real \<Rightarrow> real" where
  "spec_buoyancy_head sim delta_t =
     9.81 * density (fluid sim) * 0.00021 * delta_t * loop_height sim"

text \<open>Two further simulators, used as concrete inputs: a light oil in a 4 cm pipe, for which the
  inner iteration lands on the balance point after one update, and a syrup in a 3.2 cm
  pipe, for which it does not settle.\<close>

definition Oil :: Fluid where
  "Oil = \<lparr>name = ''Oil'', density = 800, specific_heat = 2000,
     viscosity = 0.1, thermal_conductivity = 0.15\<rparr>"

definition oil_sim :: Simulator where
  "oil_sim = NaturalCirculationSimulator Oil 1 0.04 10 20"

definition Syrup :: Fluid where
  "Syrup = \<lparr>name = ''Syrup'', density = 1000, specific_heat = 2400,
     viscosity = 1, thermal_conductivity = 0.3\<rparr>"

definition syrup_sim :: Simulator where
  "syrup_sim = NaturalCirculationSimulator Syrup 1 0.032 1000 20"

text \<open>One pass of the energy coupler as the specification words it, from the flow rate the
  momentum solver returned and the current \<open>delta_t\<close>.\<close>

definition spec_relax :: "Simulator \<Rightarrow> real \<Rightarrow> real \<Rightarrow> real" where
  "spec_relax sim flow_rate delta_t =
     (let mass_flow = flow_rate * density (fluid sim);
          delta_t_calc = (if mass_flow > 0
                          then heater_power sim / (mass_flow * specific_heat (fluid sim))
                          else delta_t)
      in 0.5 * delta_t + 0.5 * delta_t_calc)"

text \<open>A fluid of density zero: the mass flow is zero, so the energy coupler takes its
  \<^verbatim>\<open>else\<close> branch in every pass.\<close>

definition Still :: Fluid where
  "Still = \<lparr>name = ''Still'', density = 0, specific_heat = 1000,
     viscosity = 1, thermal_conductivity = 0\<rparr>"

definition still_sim :: Simulator where
  "still_sim = NaturalCirculationSimulator Still 1 1 1000 20"

text \<open>A very viscous fluid in a 3.2 cm pipe, heated with \<^verbatim>\<open>46080 * math.pi\<close> W. For
  \<open>delta_t\<close> between 10 and 11 the inner iteration alternates between the floor and
  \<open>honey_velocity delta_t\<close> and ends on the latter; \<open>honey_relax\<close> is the resulting pass of the
  outer loop.\<close>

definition Honey :: Fluid where
  "Honey = \<lparr>name = ''Honey'', density = 1000, specific_heat = 2400,
     viscosity = 10, thermal_conductivity = 0.5\<rparr>"

definition honey_sim :: Simulator where
  "honey_sim = NaturalCirculationSimulator Honey 1 0.032 (46080 * pi) 20"

definition honey_velocity :: "real \<Rightarrow> real" where
  "honey_velocity d = 1.64808 * d - 9.99999"

definition honey_relax :: "real \<Rightarrow> real" where
  "honey_relax d = 0.5 * d + 0.5 * (75 / honey_velocity d)"

definition honey_range :: "real \<Rightarrow> bool" where
  "honey_range d \<longleftrightarrow> 10 \<le> d \<and> d \<le> 11 \<and> honey_relax d \<noteq> d"

section \<open>Properties\<close>

text \<open>
  C2. For any two values of \<^verbatim>\<open>initial_temp\<close> and one simulator, \<^verbatim>\<open>simulate\<close> returns the
  same outcome: the parameter has no influence, the iteration being seeded with the
  constant 10.
\<close>

theorem simulate_ignores_initial_temp:
  "simulate sim t1 = simulate sim t2"
  by (simp add: simulate_def)

lemma reynolds_value:
  "viscosity (fluid sim) \<noteq> 0 \<Longrightarrow>
   reynolds sim v = Inr (density (fluid sim) * v * pipe_diameter sim / viscosity (fluid sim))"
  by (simp add: reynolds_def py_div_def)

lemma pressure_drop_value:
  "pipe_diameter sim \<noteq> 0 \<Longrightarrow>
   pressure_drop sim ff v =
     Inr (ff * (loop_length sim / pipe_diameter sim) * (density (fluid sim) * v ^ 2) / 2)"
  by (simp add: pressure_drop_def py_div_def)

lemma residual_value:
  assumes "viscosity (fluid sim) \<noteq> 0" "pipe_diameter sim \<noteq> 0"
  shows "residual sim head v =
     Inr (head - friction_factor (density (fluid sim) * v * pipe_diameter sim / viscosity (fluid sim))
            * (loop_length sim / pipe_diameter sim) * (density (fluid sim) * v ^ 2) / 2)"
  using assms by (simp add: residual_def reynolds_value pressure_drop_value)

lemma update_velocity_value:
  assumes "momentum_ok sim" "0 < v"
  shows "update_velocity sim res v =
     Inr (max (v + res / (density (fluid sim) * v * loop_length sim / pipe_diameter sim)) 0.00001)"
  using assms by (simp add: update_velocity_def py_div_def momentum_ok_def loop_length_def)

lemma velocity_loop_floor:
  assumes "momentum_ok sim"
  shows "0.00001 \<le> v \<Longrightarrow> \<exists>u. velocity_loop sim head n v = Inr u \<and> 0.00001 \<le> u"
proof (induction n arbitrary: v)
  case 0
  then show ?case by simp
next
  case (Suc n)
  have mu: "viscosity (fluid sim) \<noteq> 0" and d: "pipe_diameter sim \<noteq> 0"
    using assms by (auto simp: momentum_ok_def)
  have vpos: "0 < v" using Suc.prems by simp
  obtain r where r: "residual sim head v = Inr r"
    using residual_value [OF mu d] by blast
  show ?case
  proof (cases "\<bar>r\<bar> < 0.000001")
    case True
    then show ?thesis using r Suc.prems by simp
  next
    case False
    define v' where "v' = max (v + r / (density (fluid sim) * v * loop_length sim / pipe_diameter sim)) 0.00001"
    have u: "update_velocity sim r v = Inr v'"
      unfolding v'_def by (rule update_velocity_value [OF assms vpos])
    have "0.00001 \<le> v'" unfolding v'_def by simp
    from Suc.IH [OF this] show ?thesis using r False u by simp
  qed
qed

lemma final_velocity_floor:
  assumes "momentum_ok sim"
  shows "\<exists>u. final_velocity sim delta_t = Inr u \<and> 0.00001 \<le> u"
proof -
  have mu: "viscosity (fluid sim) \<noteq> 0" and d: "pipe_diameter sim \<noteq> 0"
    using assms by (auto simp: momentum_ok_def)
  have "final_velocity sim delta_t = velocity_loop sim (pressure_head sim delta_t) 100 0.1"
    by (simp add: final_velocity_def reynolds_value [OF mu] pressure_drop_value [OF d])
  then show ?thesis using velocity_loop_floor [OF assms, of "0.1"] by simp
qed

lemma velocity_loop_snoc:
  "velocity_loop sim head (Suc n) v =
     (case velocity_loop sim head n v of Inl e \<Rightarrow> Inl e
      | Inr u \<Rightarrow> velocity_loop sim head (Suc 0) u)"
proof (induction n arbitrary: v)
  case 0
  show ?case by (simp split: sum.splits)
next
  case (Suc n)
  show ?case
  proof (cases "residual sim head v")
    case (Inl e)
    then show ?thesis by simp
  next
    case (Inr r)
    show ?thesis
    proof (cases "\<bar>r\<bar> < 0.000001")
      case True
      then show ?thesis using Inr by simp
    next
      case False
      show ?thesis
      proof (cases "update_velocity sim r v")
        case (Inl e)
        then show ?thesis using Inr False by simp
      next
        case upd: (Inr v')
        have "velocity_loop sim head (Suc (Suc n)) v = velocity_loop sim head (Suc n) v'"
          using Inr False upd by simp
        also have "\<dots> = (case velocity_loop sim head n v' of Inl e \<Rightarrow> Inl e
                          | Inr u \<Rightarrow> velocity_loop sim head (Suc 0) u)"
          by (rule Suc.IH)
        also have "velocity_loop sim head n v' = velocity_loop sim head (Suc n) v"
          using Inr False upd by simp
        finally show ?thesis .
      qed
    qed
  qed
qed

lemma cross_section_pos:
  "0 < D \<Longrightarrow> 0 < cross_section (NaturalCirculationSimulator fl H D Q Tc)"
  by (simp add: NaturalCirculationSimulator_def)

lemma momentum_ok_init:
  "0 < density fl \<Longrightarrow> 0 < viscosity fl \<Longrightarrow> 0 < D \<Longrightarrow> 0 < H \<Longrightarrow>
   momentum_ok (NaturalCirculationSimulator fl H D Q Tc)"
  by (simp add: momentum_ok_def NaturalCirculationSimulator_def)

lemma calculate_flow_rate_pos:
  assumes "momentum_ok sim" "0 < cross_section sim"
  shows "\<exists>f. calculate_flow_rate sim delta_t = Inr f \<and> 0 < f"
proof -
  obtain u where u: "final_velocity sim delta_t = Inr u" "0.00001 \<le> u"
    using final_velocity_floor [OF assms(1)] by blast
  then have "0 < u * cross_section sim" using assms(2) by simp
  then show ?thesis using u by (simp add: calculate_flow_rate_def)
qed

lemma energy_step_value:
  assumes "momentum_ok sim" "0 < cross_section sim" "0 < specific_heat (fluid sim)"
  shows "\<exists>f. calculate_flow_rate sim d = Inr f \<and> 0 < f * density (fluid sim) \<and>
           energy_step sim d =
             Inr (0.5 * d + 0.5 * (heater_power sim / (f * density (fluid sim) * specific_heat (fluid sim))), f)"
proof -
  obtain f where f: "calculate_flow_rate sim d = Inr f" "0 < f"
    using calculate_flow_rate_pos [OF assms(1,2)] by blast
  have rho: "0 < density (fluid sim)" using assms(1) by (simp add: momentum_ok_def)
  have m: "0 < f * density (fluid sim)" using f rho by simp
  have "f \<noteq> 0" "density (fluid sim) \<noteq> 0" "specific_heat (fluid sim) \<noteq> 0"
    using f rho assms(3) by simp_all
  then show ?thesis using f m by (simp add: energy_step_def py_div_def Let_def)
qed

lemma energy_loop_snoc:
  "energy_loop sim (Suc n) st =
     (case energy_loop sim n st of Inl e \<Rightarrow> Inl e
      | Inr (d, fr) \<Rightarrow>
          (case energy_step sim d of Inl e \<Rightarrow> Inl e
           | Inr (d', f) \<Rightarrow> Inr (d', Some f)))"
proof (induction n arbitrary: st)
  case 0
  show ?case by (cases st) (simp split: sum.splits prod.splits)
next
  case (Suc n)
  obtain d fr where st: "st = (d, fr)" by (cases st)
  show ?case
  proof (cases "energy_step sim d")
    case (Inl e)
    then show ?thesis using st by simp
  next
    case (Inr p)
    obtain d' f where p: "p = (d', f)" by (cases p)
    have "energy_loop sim (Suc (Suc n)) st = energy_loop sim (Suc n) (d', Some f)"
      using st Inr p by simp
    also have "\<dots> = (case energy_loop sim n (d', Some f) of Inl e \<Rightarrow> Inl e
      | Inr (d, fr) \<Rightarrow>
          (case energy_step sim d of Inl e \<Rightarrow> Inl e
           | Inr (d', f) \<Rightarrow> Inr (d', Some f)))"
      by (rule Suc.IH)
    also have "energy_loop sim n (d', Some f) = energy_loop sim (Suc n) st"
      using st Inr p by simp
    finally show ?thesis .
  qed
qed

lemma energy_loop_total:
  assumes "momentum_ok sim" "0 < cross_section sim" "0 < specific_heat (fluid sim)"
  shows "\<exists>d fr. energy_loop sim n st = Inr (d, fr) \<and> (0 < n \<longrightarrow> fr \<noteq> None)"
proof (induction n)
  case 0
  show ?case by (cases st) simp
next
  case (Suc n)
  then obtain d fr where l: "energy_loop sim n st = Inr (d, fr)" by blast
  obtain f d' where "energy_step sim d = Inr (d', f)"
    using energy_step_value [OF assms, of d] by blast
  then show ?case using l by (simp add: energy_loop_snoc del: energy_loop.simps)
qed


lemma main_sim_ok: "momentum_ok main_sim" "0 < cross_section main_sim"
  "0 < specific_heat (fluid main_sim)"
  by (simp_all add: main_sim_def momentum_ok_def NaturalCirculationSimulator_def Water_def)

lemma simulate_total:
  assumes "momentum_ok sim" "0 < cross_section sim" "0 < specific_heat (fluid sim)"
  shows "\<exists>r. simulate sim t = Inr r"
proof -
  obtain d fr where "energy_loop sim 20 (10, None) = Inr (d, fr)" "fr \<noteq> None"
    using energy_loop_total [OF assms, of 20 "(10, None)"] by auto
  then show ?thesis by (auto simp: simulate_def)
qed




text \<open>
  C5. In every record returned by \<^verbatim>\<open>simulate\<close> the cold leg temperature is the
  simulator's cooler temperature, the hot leg temperature is the cooler temperature plus
  the reported temperature difference, the fluid entry is the fluid's name, and the flow
  rate and temperature difference are those the outer loop ended with.
\<close>

theorem result_record_fields:
  assumes "simulate sim initial_temp = Inr r"
  shows "cold_leg_temp_C r = cooler_temp sim
    \<and> hot_leg_temp_C r = cooler_temp sim + temperature_difference_C r
    \<and> fluid_name r = name (fluid sim)
    \<and> energy_loop sim 20 (10, None) = Inr (temperature_difference_C r, Some (flow_rate_m3_s r))"
  using assms by (auto simp: simulate_def split: sum.splits option.splits prod.splits)

theorem result_record_fields_witness:
  "\<exists>r. simulate main_sim 20 = Inr r \<and> cold_leg_temp_C r = 20
      \<and> hot_leg_temp_C r = 20 + temperature_difference_C r \<and> fluid_name r = ''Water''"
proof -
  obtain r where r: "simulate main_sim 20 = Inr r"
    using simulate_total [OF main_sim_ok] by blast
  have "cooler_temp main_sim = 20" "name (fluid main_sim) = ''Water''"
    by (simp_all add: main_sim_def NaturalCirculationSimulator_def Water_def)
  then show ?thesis using r result_record_fields [OF r] by simp
qed






text \<open>
  C6. At every pass of the inner loop the Reynolds number is \<open>\<rho> v D / \<mu>\<close>, the friction
  factor is \<open>64 / Re\<close> below 2000 (0.064 when \<open>Re \<le> 0\<close>) and \<open>0.316 / Re\<^sup>0\<^sup>.\<^sup>2\<^sup>5\<close>
  otherwise, the pressure drop is \<open>f (4 H / D) (\<rho> v\<^sup>2 / 2)\<close> and the buoyancy head is
  \<open>9.81 \<rho> 0.00021 delta_t H\<close>; the pass stops or updates on their difference.
\<close>

theorem friction_and_pressure_model:
  assumes "viscosity (fluid sim) \<noteq> 0" "pipe_diameter sim \<noteq> 0"
  shows "reynolds sim v = Inr (spec_reynolds sim v)
    \<and> friction_factor (spec_reynolds sim v) = spec_friction_factor (spec_reynolds sim v)
    \<and> pressure_drop sim (friction_factor (spec_reynolds sim v)) v = Inr (spec_pressure_drop sim v)
    \<and> pressure_head sim delta_t = spec_buoyancy_head sim delta_t
    \<and> residual sim (pressure_head sim delta_t) v
        = Inr (spec_buoyancy_head sim delta_t - spec_pressure_drop sim v)
    \<and> velocity_loop sim (pressure_head sim delta_t) (Suc n) v
        = (if \<bar>spec_buoyancy_head sim delta_t - spec_pressure_drop sim v\<bar> < 0.000001 then Inr v
           else (case update_velocity sim
                        (spec_buoyancy_head sim delta_t - spec_pressure_drop sim v) v of
                   Inl e \<Rightarrow> Inl e
                 | Inr v' \<Rightarrow> velocity_loop sim (pressure_head sim delta_t) n v'))"
proof -
  have re: "reynolds sim v = Inr (spec_reynolds sim v)"
    using assms(1) by (simp add: reynolds_value spec_reynolds_def)
  have ff: "friction_factor x = spec_friction_factor x" for x
    by (simp add: friction_factor_def spec_friction_factor_def)
  have pd: "pressure_drop sim (friction_factor (spec_reynolds sim v)) v
      = Inr (spec_pressure_drop sim v)"
    using assms(2)
    by (simp add: pressure_drop_value spec_pressure_drop_def ff loop_length_def)
  have hd: "pressure_head sim delta_t = spec_buoyancy_head sim delta_t"
    by (simp add: pressure_head_def spec_buoyancy_head_def)
  have rs: "residual sim (pressure_head sim delta_t) v
        = Inr (spec_buoyancy_head sim delta_t - spec_pressure_drop sim v)"
    by (simp add: residual_def re pd hd)
  have lp: "velocity_loop sim (pressure_head sim delta_t) (Suc n) v
        = (if \<bar>spec_buoyancy_head sim delta_t - spec_pressure_drop sim v\<bar> < 0.000001 then Inr v
           else (case update_velocity sim
                        (spec_buoyancy_head sim delta_t - spec_pressure_drop sim v) v of
                   Inl e \<Rightarrow> Inl e
                 | Inr v' \<Rightarrow> velocity_loop sim (pressure_head sim delta_t) n v'))"
    by (simp add: rs)
  show ?thesis using re ff pd hd rs lp by blast
qed

theorem friction_and_pressure_model_witness:
  "reynolds main_sim 0.1 = Inr (spec_reynolds main_sim 0.1)
    \<and> residual main_sim (pressure_head main_sim 10) 0.1
        = Inr (spec_buoyancy_head main_sim 10 - spec_pressure_drop main_sim 0.1)"
proof -
  have "viscosity (fluid main_sim) \<noteq> 0" "pipe_diameter main_sim \<noteq> 0"
    by (simp_all add: main_sim_def NaturalCirculationSimulator_def Water_def)
  from friction_and_pressure_model [OF this, of "0.1" 10] show ?thesis by blast
qed


lemma result_record_fields_aux:
  assumes "simulate sim initial_temp = Inr r"
  shows "energy_loop sim 20 (10, None) = Inr (temperature_difference_C r, Some (flow_rate_m3_s r))"
  using assms by (auto simp: simulate_def split: sum.splits option.splits prod.splits)

lemma lag_structure:
  assumes "simulate sim initial_temp = Inr r"
  shows "\<exists>d19 fr. energy_loop sim 19 (10, None) = Inr (d19, fr)
      \<and> calculate_flow_rate sim d19 = Inr (flow_rate_m3_s r)
      \<and> energy_step sim d19 = Inr (temperature_difference_C r, flow_rate_m3_s r)"
proof -
  have "energy_loop sim 20 (10, None)
      = Inr (temperature_difference_C r, Some (flow_rate_m3_s r))"
    using result_record_fields_aux [OF assms] .
  then have "energy_loop sim (Suc 19) (10, None)
      = Inr (temperature_difference_C r, Some (flow_rate_m3_s r))"
    by simp
  from this [unfolded energy_loop_snoc]
  obtain d19 fr where a: "energy_loop sim 19 (10, None) = Inr (d19, fr)"
    and b: "energy_step sim d19 = Inr (temperature_difference_C r, flow_rate_m3_s r)"
    by (auto split: sum.splits prod.splits)
  from b have "calculate_flow_rate sim d19 = Inr (flow_rate_m3_s r)"
    by (auto simp: energy_step_def Let_def split: sum.splits if_splits)
  then show ?thesis using a b by blast
qed


lemma energy_loop_funpow:
  assumes step: "\<And>d. energy_step sim d = Inr (g d, h d)"
  shows "energy_loop sim (Suc n) (d0, fr) = Inr ((g ^^ Suc n) d0, Some (h ((g ^^ n) d0)))"
proof (induction n)
  case 0
  show ?case by (simp add: step)
next
  case (Suc n)
  show ?case
    unfolding energy_loop_snoc [of sim "Suc n"] Suc.IH by (simp add: step)
qed

lemma fourth_root_power: "0 < x \<Longrightarrow> (x ^ 4) powr 0.25 = (x::real)"
proof -
  assume x: "0 < x"
  have "x ^ 4 = x powr 4" using x by simp
  then have "(x ^ 4) powr 0.25 = (x powr 4) powr 0.25" by simp
  also have "\<dots> = x powr (4 * 0.25)" by (rule powr_powr)
  also have "\<dots> = x" using x by simp
  finally show ?thesis .
qed

lemma blasius_root_lower: "6.68 < (2000::real) powr 0.25"
proof -
  have "((6.68::real) ^ 4) powr 0.25 < 2000 powr 0.25"
    by (rule powr_less_mono2) (simp_all add: power_divide)
  then show ?thesis using fourth_root_power [of "6.68"] by simp
qed

lemma blasius_root_upper: "(2000::real) powr 0.25 < 6.69"
proof -
  have "(2000::real) powr 0.25 < (6.69 ^ 4) powr 0.25"
    by (rule powr_less_mono2) (simp_all add: power_divide)
  then show ?thesis using fourth_root_power [of "6.69"] by simp
qed

lemma friction_factor_switch: "friction_factor 2000 = 0.316 / (2000 powr 0.25)"
  by (simp add: friction_factor_def)

lemma friction_switch_bounds:
  "0.04723 < friction_factor 2000" "friction_factor 2000 < 0.04731"
proof -
  have p: "0 < (2000::real) powr 0.25" by simp
  show "0.04723 < friction_factor 2000"
    unfolding friction_factor_switch using blasius_root_upper p
    by (simp add: field_simps)
  show "friction_factor 2000 < 0.04731"
    unfolding friction_factor_switch using blasius_root_lower p
    by (simp add: field_simps)
qed

text \<open>
  C8 as stated fails: the friction factor at \<open>Re = 2000\<close> exceeds the one at \<open>Re = 1999\<close>
  by more than 40 percent, and the Blasius value at 2000 exceeds the laminar value by more
  than 47 percent.
\<close>

theorem regime_switch_jump_counterexample:
  "1.4 * friction_factor 1999 < friction_factor 2000
   \<and> 1.47 * (64 / 2000) < 0.316 / ((2000::real) powr 0.25)"
proof -
  have "friction_factor 1999 = 64 / 1999" by (simp add: friction_factor_def)
  then have "1.4 * friction_factor 1999 < 0.04723" by simp
  moreover have "1.47 * (64 / 2000) < (0.04723::real)" by simp
  ultimately show ?thesis
    using friction_switch_bounds(1) unfolding friction_factor_switch by linarith
qed

text \<open>
  C8, as amended. At the switch \<open>Re = 2000\<close> the two formulas differ by a bounded amount
  that is not small: the Blasius value is between 1.47 and 1.48 times the laminar value
  \<open>64 / 2000\<close>, and between 1.4 and 1.48 times the friction factor at any Reynolds number
  from 1900 up to the switch.
\<close>

theorem regime_switch_jump_bounded:
  "friction_factor 2000 = 0.316 / (2000 powr 0.25)
   \<and> 1.47 * (64 / 2000) < friction_factor 2000
   \<and> friction_factor 2000 < 1.48 * (64 / 2000)
   \<and> (\<forall>re. 1900 \<le> re \<and> re < 2000 \<longrightarrow>
         friction_factor re = 64 / re
         \<and> 1.4 * friction_factor re < friction_factor 2000
         \<and> friction_factor 2000 < 1.48 * friction_factor re)"
proof -
  have a: "1.47 * (64 / 2000) < friction_factor 2000"
    using friction_switch_bounds(1) by simp
  have b: "friction_factor 2000 < 1.48 * (64 / 2000)"
    using friction_switch_bounds(2) by simp
  have c: "friction_factor re = 64 / re
         \<and> 1.4 * friction_factor re < friction_factor 2000
         \<and> friction_factor 2000 < 1.48 * friction_factor re"
    if "1900 \<le> re \<and> re < 2000" for re
  proof -
    have re: "1900 \<le> re" "re < 2000" using that by simp_all
    have f: "friction_factor re = 64 / re" using re by (simp add: friction_factor_def)
    have "64 / re \<le> 64 / 1900" by (rule divide_left_mono) (use re in simp_all)
    then have u: "1.4 * (64 / re) < 0.04723" by simp
    have "64 / 2000 < 64 / re" by (rule divide_strict_left_mono) (use re in simp_all)
    then have l: "0.04731 < 1.48 * (64 / re)" by simp
    show ?thesis unfolding f using u l friction_switch_bounds by linarith
  qed
  show ?thesis using friction_factor_switch a b c by blast
qed

theorem regime_switch_jump_bounded_witness:
  "(1900::real) \<le> 1999 \<and> (1999::real) < 2000 \<and> friction_factor 1999 = 64 / 1999
   \<and> 1.4 * friction_factor 1999 < friction_factor 2000
   \<and> friction_factor 2000 < 1.48 * friction_factor 1999"
proof -
  have h: "(1900::real) \<le> 1999 \<and> (1999::real) < 2000" by simp
  show ?thesis using h regime_switch_jump_bounded by blast
qed

lemma friction_times_square_mono:
  assumes "0 < x" "x < y"
  shows "friction_factor x * x\<^sup>2 < friction_factor y * y\<^sup>2"
proof -
  have turb: "friction_factor z * z\<^sup>2 = 0.316 * z powr 1.75" if "2000 \<le> z" for z
  proof -
    have z: "0 < z" using that by simp
    have "z\<^sup>2 / z powr 0.25 = z powr 2 / z powr 0.25" using z by simp
    also have "\<dots> = z powr (2 - 0.25)" by (rule powr_diff [symmetric])
    finally have "z\<^sup>2 / z powr 0.25 = z powr 1.75" by simp
    then show ?thesis using that by (simp add: friction_factor_def)
  qed
  have lam: "friction_factor z * z\<^sup>2 = 64 * z" if "0 < z" "z < 2000" for z
    using that by (simp add: friction_factor_def power2_eq_square)
  consider "y < 2000" | "2000 \<le> x" | "x < 2000" "2000 \<le> y" by linarith
  then show ?thesis
  proof cases
    case 1
    then show ?thesis using assms by (simp add: lam)
  next
    case 2
    have "x powr 1.75 < y powr 1.75"
      by (rule powr_less_mono2) (use assms in simp_all)
    then show ?thesis using 2 assms by (simp add: turb)
  next
    case 3
    have "(2000::real) powr 1.75 \<le> y powr 1.75"
      by (rule powr_mono2) (use 3 in simp_all)
    moreover have "(2000::real) powr 1.75 = 2000\<^sup>2 / 2000 powr 0.25"
    proof -
      have "(2000::real)\<^sup>2 / 2000 powr 0.25 = 2000 powr 2 / 2000 powr 0.25" by simp
      also have "\<dots> = 2000 powr (2 - 0.25)" by (rule powr_diff [symmetric])
      finally show ?thesis by simp
    qed
    moreover have "(4000000::real) / 6.69 < 2000\<^sup>2 / 2000 powr 0.25"
      using blasius_root_upper by (simp add: field_simps)
    ultimately have "4000000 / 6.69 < y powr 1.75" by linarith
    then have "128000 < 0.316 * y powr 1.75" by simp
    moreover have "64 * x < 128000" using 3 by simp
    ultimately show ?thesis using 3 assms by (simp add: turb lam)
  qed
qed

lemma residual_decreasing:
  assumes ok: "momentum_ok sim" and v: "0 < v1" "v1 < v2"
    and r1: "residual sim head v1 = Inr r1" and r2: "residual sim head v2 = Inr r2"
  shows "r2 < r1"
proof -
  define rho where "rho = density (fluid sim)"
  define mu where "mu = viscosity (fluid sim)"
  define D where "D = pipe_diameter sim"
  define L where "L = loop_length sim"
  have pos: "0 < rho" "0 < mu" "0 < D" "0 < L"
    using ok by (simp_all add: momentum_ok_def rho_def mu_def D_def L_def loop_length_def)
  define a where "a = rho * D / mu"
  have a: "0 < a" using pos by (simp add: a_def)
  have val: "residual sim head v = Inr (head - friction_factor (a * v) * (L / D) * (rho * v\<^sup>2) / 2)" for v
  proof -
    have "rho * v * D / mu = a * v" by (simp add: a_def)
    then show ?thesis
      using residual_value [of sim head v] pos
      by (simp add: rho_def mu_def D_def L_def)
  qed
  have e1: "r1 = head - friction_factor (a * v1) * (L / D) * (rho * v1\<^sup>2) / 2"
    using r1 val [of v1] by simp
  have e2: "r2 = head - friction_factor (a * v2) * (L / D) * (rho * v2\<^sup>2) / 2"
    using r2 val [of v2] by simp
  have "friction_factor (a * v1) * (a * v1)\<^sup>2 < friction_factor (a * v2) * (a * v2)\<^sup>2"
    by (rule friction_times_square_mono) (use a v in simp_all)
  then have "a\<^sup>2 * (friction_factor (a * v1) * v1\<^sup>2) < a\<^sup>2 * (friction_factor (a * v2) * v2\<^sup>2)"
    by (simp add: power_mult_distrib mult_ac)
  then have m: "friction_factor (a * v1) * v1\<^sup>2 < friction_factor (a * v2) * v2\<^sup>2"
    using a by simp
  have c: "0 < (L / D) * rho / 2" using pos by simp
  have "(L / D) * rho / 2 * (friction_factor (a * v1) * v1\<^sup>2)
      < (L / D) * rho / 2 * (friction_factor (a * v2) * v2\<^sup>2)"
    using m c by (rule mult_strict_left_mono)
  then show ?thesis unfolding e1 e2 by (simp add: mult_ac)
qed


lemma velocity_loop_step:
  "residual sim head v = Inr r \<Longrightarrow> \<not> \<bar>r\<bar> < 0.000001 \<Longrightarrow>
   update_velocity sim r v = Inr v' \<Longrightarrow>
   velocity_loop sim head (Suc n) v = velocity_loop sim head n v'"
  by simp

lemma velocity_loop_break:
  "residual sim head v = Inr r \<Longrightarrow> \<bar>r\<bar> < 0.000001 \<Longrightarrow>
   velocity_loop sim head (Suc n) v = Inr v"
  by simp

lemma oil_sim_ok: "momentum_ok oil_sim" "0 < cross_section oil_sim"
  "0 < specific_heat (fluid oil_sim)"
  by (simp_all add: oil_sim_def momentum_ok_def NaturalCirculationSimulator_def Oil_def)

lemma oil_fields: "density (fluid oil_sim) = 800" "viscosity (fluid oil_sim) = 0.1"
  "specific_heat (fluid oil_sim) = 2000" "pipe_diameter oil_sim = 0.04"
  "loop_height oil_sim = 1" "heater_power oil_sim = 10"
  "cross_section oil_sim = pi * 0.0004"
  by (simp_all add: oil_sim_def NaturalCirculationSimulator_def Oil_def power2_eq_square)

lemma oil_residual:
  assumes "0 < v" "v < 6"
  shows "residual oil_sim head v = Inr (head - 8000 * v)"
proof -
  have "friction_factor (320 * v) = 64 / (320 * v)"
    using assms by (simp add: friction_factor_def)
  then show ?thesis
    using assms residual_value [of oil_sim head v]
    by (simp add: oil_fields loop_length_def power2_eq_square)
qed

lemma oil_update:
  assumes "0 < v"
  shows "update_velocity oil_sim res v = Inr (max (v + res / (80000 * v)) 0.00001)"
  using assms update_velocity_value [OF oil_sim_ok(1) assms, of res]
  by (simp add: oil_fields loop_length_def)

lemma oil_pressure_head: "pressure_head oil_sim d = 1.64808 * d"
  by (simp add: pressure_head_def oil_fields)

lemma oil_final_velocity:
  assumes "1 \<le> d" "d \<le> 10"
  shows "final_velocity oil_sim d = Inr (0.00020601 * d)"
proof -
  have n: "(100::nat) = Suc (Suc 98)" by simp
  have r0: "residual oil_sim (1.64808 * d) 0.1 = Inr (1.64808 * d - 800)"
    using oil_residual [of "0.1" "1.64808 * d"] by simp
  have nb: "\<not> \<bar>1.64808 * d - 800\<bar> < 0.000001" using assms by simp
  have "max (0.1 + (1.64808 * d - 800) / (80000 * 0.1)) 0.00001 = 0.00020601 * d"
    using assms by (simp add: max_def field_simps)
  then have u0: "update_velocity oil_sim (1.64808 * d - 800) 0.1 = Inr (0.00020601 * d)"
    using oil_update [of "0.1" "1.64808 * d - 800"] by simp
  have r1: "residual oil_sim (1.64808 * d) (0.00020601 * d) = Inr 0"
    using oil_residual [of "0.00020601 * d" "1.64808 * d"] assms by simp
  have "velocity_loop oil_sim (1.64808 * d) (Suc (Suc 98)) 0.1
      = velocity_loop oil_sim (1.64808 * d) (Suc 98) (0.00020601 * d)"
    using r0 nb u0 by (rule velocity_loop_step)
  also have "\<dots> = Inr (0.00020601 * d)"
    using r1 by (rule velocity_loop_break) simp
  finally have "velocity_loop oil_sim (1.64808 * d) (Suc (Suc 98)) 0.1 = Inr (0.00020601 * d)" .
  then have "velocity_loop oil_sim (pressure_head oil_sim d) 100 0.1 = Inr (0.00020601 * d)"
    unfolding oil_pressure_head n .
  moreover have "final_velocity oil_sim d
      = velocity_loop oil_sim (pressure_head oil_sim d) 100 0.1"
    by (simp add: final_velocity_def reynolds_value pressure_drop_value oil_fields)
  ultimately show ?thesis by simp
qed

lemma oil_flow_rate:
  assumes "1 \<le> d" "d \<le> 10"
  shows "calculate_flow_rate oil_sim d = Inr (0.00020601 * d * (pi * 0.0004))"
  by (simp add: calculate_flow_rate_def oil_final_velocity [OF assms] oil_fields)


lemma syrup_sim_ok: "momentum_ok syrup_sim"
  by (simp add: syrup_sim_def momentum_ok_def NaturalCirculationSimulator_def Syrup_def)

lemma syrup_fields: "density (fluid syrup_sim) = 1000" "viscosity (fluid syrup_sim) = 1"
  "pipe_diameter syrup_sim = 0.032" "loop_height syrup_sim = 1"
  by (simp_all add: syrup_sim_def NaturalCirculationSimulator_def Syrup_def)

lemma syrup_residual:
  assumes "0 < v" "v < 62"
  shows "residual syrup_sim head v = Inr (head - 125000 * v)"
proof -
  have "friction_factor (32 * v) = 64 / (32 * v)"
    using assms by (simp add: friction_factor_def)
  then show ?thesis
    using assms residual_value [of syrup_sim head v]
    by (simp add: syrup_fields loop_length_def power2_eq_square)
qed

lemma syrup_update:
  assumes "0 < v"
  shows "update_velocity syrup_sim res v = Inr (max (v + res / (125000 * v)) 0.00001)"
  using assms update_velocity_value [OF syrup_sim_ok assms, of res]
  by (simp add: syrup_fields loop_length_def)

lemma syrup_pass:
  assumes "0 < v" "v < 62" "\<not> \<bar>head - 125000 * v\<bar> < 0.000001"
    and "max (v + (head - 125000 * v) / (125000 * v)) 0.00001 = v'"
  shows "velocity_loop syrup_sim head (Suc n) v = velocity_loop syrup_sim head n v'"
proof (rule velocity_loop_step)
  show "residual syrup_sim head v = Inr (head - 125000 * v)"
    by (rule syrup_residual [OF assms(1,2)])
  show "\<not> \<bar>head - 125000 * v\<bar> < 0.000001" by (rule assms(3))
  show "update_velocity syrup_sim (head - 125000 * v) v = Inr v'"
    using syrup_update [OF assms(1), of "head - 125000 * v"] assms(4) by simp
qed

lemma syrup_final_velocity_start:
  "final_velocity syrup_sim d = velocity_loop syrup_sim (pressure_head syrup_sim d) 100 0.1"
  by (simp add: final_velocity_def reynolds_value pressure_drop_value syrup_fields)

lemma syrup_low_cycle:
  "velocity_loop syrup_sim 2.0601 (Suc (2 * m)) 0.00001 = Inr 0.64809"
proof (induction m)
  case 0
  have "velocity_loop syrup_sim 2.0601 (Suc 0) 0.00001
      = velocity_loop syrup_sim 2.0601 0 0.64809"
    by (rule syrup_pass) simp_all
  then show ?case by simp
next
  case (Suc m)
  have "velocity_loop syrup_sim 2.0601 (Suc (Suc (Suc (2 * m)))) 0.00001
      = velocity_loop syrup_sim 2.0601 (Suc (Suc (2 * m))) 0.64809"
    by (rule syrup_pass) simp_all
  also have "\<dots> = velocity_loop syrup_sim 2.0601 (Suc (2 * m)) 0.00001"
    by (rule syrup_pass) simp_all
  finally have "velocity_loop syrup_sim 2.0601 (Suc (Suc (Suc (2 * m)))) 0.00001 = Inr 0.64809"
    unfolding Suc.IH .
  moreover have "Suc (2 * Suc m) = Suc (Suc (Suc (2 * m)))" by simp
  ultimately show ?case by (simp only:)
qed

lemma syrup_low_velocity: "final_velocity syrup_sim 1 = Inr 0.64809"
proof -
  have n: "(100::nat) = Suc (Suc (2 * 49))" by simp
  have h: "pressure_head syrup_sim 1 = 2.0601"
    by (simp add: pressure_head_def syrup_fields)
  have "velocity_loop syrup_sim 2.0601 (Suc (Suc (2 * 49))) 0.1
      = velocity_loop syrup_sim 2.0601 (Suc (2 * 49)) 0.00001"
    by (rule syrup_pass) simp_all
  then show ?thesis
    unfolding syrup_final_velocity_start h n syrup_low_cycle .
qed

lemma syrup_high_cycle:
  "velocity_loop syrup_sim 3.09015 (3 * m) 0.00001 = Inr 0.00001"
proof (induction m)
  case 0
  show ?case by simp
next
  case (Suc m)
  have "velocity_loop syrup_sim 3.09015 (Suc (Suc (Suc (3 * m)))) 0.00001
      = velocity_loop syrup_sim 3.09015 (Suc (Suc (3 * m))) 1.47213"
    by (rule syrup_pass) simp_all
  also have "\<dots> = velocity_loop syrup_sim 3.09015 (Suc (3 * m)) (772290509 / 1635700000)"
    by (rule syrup_pass) simp_all
  also have "\<dots> = velocity_loop syrup_sim 3.09015 (3 * m) 0.00001"
    by (rule syrup_pass) simp_all
  finally have "velocity_loop syrup_sim 3.09015 (Suc (Suc (Suc (3 * m)))) 0.00001 = Inr 0.00001"
    unfolding Suc.IH .
  moreover have "3 * Suc m = Suc (Suc (Suc (3 * m)))" by simp
  ultimately show ?case by (simp only:)
qed

lemma syrup_high_velocity: "final_velocity syrup_sim 1.5 = Inr 0.00001"
proof -
  have n: "(100::nat) = Suc (3 * 33)" by simp
  have h: "pressure_head syrup_sim 1.5 = 3.09015"
    by (simp add: pressure_head_def syrup_fields)
  have "velocity_loop syrup_sim 3.09015 (Suc (3 * 33)) 0.1
      = velocity_loop syrup_sim 3.09015 (3 * 33) 0.00001"
    by (rule syrup_pass) simp_all
  then show ?thesis
    unfolding syrup_final_velocity_start h n syrup_high_cycle .
qed

text \<open>
  C7 as stated fails. For a viscous fluid (density 1000, viscosity 1) in a loop of height 1
  and diameter 0.032 the inner iteration does not settle: at \<open>delta_t = 1\<close> it alternates
  between the floor and 0.64809 and ends on 0.64809, at \<open>delta_t = 1.5\<close> it cycles through
  three values and ends on the floor. The larger temperature difference gets the smaller
  flow rate.
\<close>

theorem flow_not_monotone_counterexample:
  "(1::real) \<le> 1.5
   \<and> calculate_flow_rate syrup_sim 1 = Inr (0.64809 * cross_section syrup_sim)
   \<and> calculate_flow_rate syrup_sim 1.5 = Inr (0.00001 * cross_section syrup_sim)
   \<and> 0.00001 * cross_section syrup_sim < 0.64809 * cross_section syrup_sim"
proof -
  have c: "0 < cross_section syrup_sim"
    by (simp add: syrup_sim_def NaturalCirculationSimulator_def)
  have v: "final_velocity syrup_sim (3 / 2) = Inr 0.00001"
    using syrup_high_velocity by simp
  show ?thesis
    using c by (simp add: calculate_flow_rate_def syrup_low_velocity v)
qed


lemma residual_shift:
  assumes "momentum_ok sim" "residual sim h v = Inr r"
  shows "residual sim h' v = Inr (r - h + h')"
proof -
  have nz: "viscosity (fluid sim) \<noteq> 0" "pipe_diameter sim \<noteq> 0"
    using assms(1) by (simp_all add: momentum_ok_def)
  show ?thesis
    using assms(2) unfolding residual_value [OF nz] by simp
qed

text \<open>
  C7, as amended. With strictly positive density, viscosity, diameter and height, take two
  temperature differences whose buoyancy heads are at least \<open>2 \<cdot> 10\<^sup>-\<^sup>6\<close> apart (twice
  the tolerance). If both returned velocities meet the tolerance on the residual, the
  smaller temperature difference has the strictly smaller flow rate.
\<close>

theorem flow_monotone_when_converged:
  assumes "0 < density fl" "0 < viscosity fl" "0 < D" "0 < H"
    and "sim = NaturalCirculationSimulator fl H D Q Tc"
    and "final_velocity sim d1 = Inr v1"
    and "residual sim (pressure_head sim d1) v1 = Inr r1" "\<bar>r1\<bar> < 0.000001"
    and "final_velocity sim d2 = Inr v2"
    and "residual sim (pressure_head sim d2) v2 = Inr r2" "\<bar>r2\<bar> < 0.000001"
    and "pressure_head sim d1 + 0.000002 \<le> pressure_head sim d2"
  shows "calculate_flow_rate sim d1 = Inr (v1 * cross_section sim)
    \<and> calculate_flow_rate sim d2 = Inr (v2 * cross_section sim)
    \<and> v1 * cross_section sim < v2 * cross_section sim"
proof -
  have ok: "momentum_ok sim" unfolding assms(5) by (rule momentum_ok_init [OF assms(1-4)])
  have cs: "0 < cross_section sim" unfolding assms(5) by (rule cross_section_pos [OF assms(3)])
  have v2: "0 < v2" using final_velocity_floor [OF ok, of d2] assms(9) by auto
  have s1: "residual sim 0 v1 = Inr (r1 - pressure_head sim d1)"
    using residual_shift [OF ok assms(7), of 0] by simp
  have s2: "residual sim 0 v2 = Inr (r2 - pressure_head sim d2)"
    using residual_shift [OF ok assms(10), of 0] by simp
  have lt: "r2 - pressure_head sim d2 < r1 - pressure_head sim d1"
    using assms(8,11,12) by linarith
  have "v1 < v2"
  proof (rule ccontr)
    assume "\<not> v1 < v2"
    then consider "v1 = v2" | "v2 < v1" by linarith
    then show False
    proof cases
      case 1
      then show False using s1 s2 lt by simp
    next
      case 2
      have "r1 - pressure_head sim d1 < r2 - pressure_head sim d2"
        by (rule residual_decreasing [OF ok v2 2 s2 s1])
      then show False using lt by simp
    qed
  qed
  then have "v1 * cross_section sim < v2 * cross_section sim" using cs by simp
  then show ?thesis using assms(6,9) by (simp add: calculate_flow_rate_def)
qed

theorem flow_monotone_when_converged_witness:
  "calculate_flow_rate oil_sim 1 = Inr (0.00020601 * cross_section oil_sim)
    \<and> calculate_flow_rate oil_sim 2 = Inr (0.00041202 * cross_section oil_sim)
    \<and> 0.00020601 * cross_section oil_sim < 0.00041202 * cross_section oil_sim"
proof -
  have f1: "final_velocity oil_sim 1 = Inr 0.00020601"
    using oil_final_velocity [of 1] by simp
  have f2: "final_velocity oil_sim 2 = Inr 0.00041202"
    using oil_final_velocity [of 2] by simp
  have r1: "residual oil_sim (pressure_head oil_sim 1) 0.00020601 = Inr 0"
    unfolding oil_pressure_head using oil_residual [of "0.00020601" "1.64808 * 1"] by simp
  have r2: "residual oil_sim (pressure_head oil_sim 2) 0.00041202 = Inr 0"
    unfolding oil_pressure_head using oil_residual [of "0.00041202" "1.64808 * 2"] by simp
  have t: "\<bar>0::real\<bar> < 0.000001" by simp
  have g: "pressure_head oil_sim 1 + 0.000002 \<le> pressure_head oil_sim 2"
    unfolding oil_pressure_head by simp
  have p: "0 < density Oil" "0 < viscosity Oil" "(0::real) < 0.04" "(0::real) < 1"
    by (simp_all add: Oil_def)
  show ?thesis
    by (rule flow_monotone_when_converged [OF p oil_sim_def f1 r1 t f2 r2 t g])
qed

lemma energy_step_iff:
  "energy_step sim d = Inr (d', f) \<longleftrightarrow>
     calculate_flow_rate sim d = Inr f
     \<and> (f * density (fluid sim) > 0 \<longrightarrow> f * density (fluid sim) * specific_heat (fluid sim) \<noteq> 0)
     \<and> d' = spec_relax sim f d"
  by (auto simp: energy_step_def spec_relax_def py_div_def Let_def split: sum.splits if_splits)

lemma energy_loop_trace:
  "energy_loop sim n (d0, fr0) = Inr (dn, frn) \<longleftrightarrow>
     (\<exists>d f. d 0 = d0 \<and> (\<forall>i<n. energy_step sim (d i) = Inr (d (Suc i), f i))
        \<and> dn = d n \<and> frn = (if n = 0 then fr0 else Some (f (n - 1))))"
proof (induction n arbitrary: dn frn)
  case 0
  show ?case by auto
next
  case (Suc n)
  show ?case
  proof
    assume "energy_loop sim (Suc n) (d0, fr0) = Inr (dn, frn)"
    then obtain dm frm fm where m: "energy_loop sim n (d0, fr0) = Inr (dm, frm)"
      and s: "energy_step sim dm = Inr (dn, fm)" and fr: "frn = Some fm"
      unfolding energy_loop_snoc by (auto split: sum.splits prod.splits)
    from m obtain d f where df: "d 0 = d0"
      "\<forall>i<n. energy_step sim (d i) = Inr (d (Suc i), f i)" "dm = d n"
      using Suc.IH by blast
    define d' where "d' = d(Suc n := dn)"
    define f' where "f' = f(n := fm)"
    have "d' 0 = d0" using df(1) by (simp add: d'_def)
    moreover have "\<forall>i<Suc n. energy_step sim (d' i) = Inr (d' (Suc i), f' i)"
    proof (intro allI impI)
      fix i assume "i < Suc n"
      then consider "i < n" | "i = n" by linarith
      then show "energy_step sim (d' i) = Inr (d' (Suc i), f' i)"
      proof cases
        case 1
        then show ?thesis using df(2) by (simp add: d'_def f'_def)
      next
        case 2
        then show ?thesis using s df(3) by (simp add: d'_def f'_def)
      qed
    qed
    moreover have "dn = d' (Suc n)" by (simp add: d'_def)
    moreover have "frn = Some (f' (Suc n - 1))" using fr by (simp add: f'_def)
    ultimately show "\<exists>d f. d 0 = d0
        \<and> (\<forall>i<Suc n. energy_step sim (d i) = Inr (d (Suc i), f i))
        \<and> dn = d (Suc n) \<and> frn = (if Suc n = 0 then fr0 else Some (f (Suc n - 1)))"
      by auto
  next
    assume "\<exists>d f. d 0 = d0
        \<and> (\<forall>i<Suc n. energy_step sim (d i) = Inr (d (Suc i), f i))
        \<and> dn = d (Suc n) \<and> frn = (if Suc n = 0 then fr0 else Some (f (Suc n - 1)))"
    then obtain d f where df: "d 0 = d0"
      "\<forall>i<Suc n. energy_step sim (d i) = Inr (d (Suc i), f i)"
      "dn = d (Suc n)" "frn = Some (f n)"
      by auto
    have "\<exists>d' f'. d' 0 = d0 \<and> (\<forall>i<n. energy_step sim (d' i) = Inr (d' (Suc i), f' i))
        \<and> d n = d' n
        \<and> (if n = 0 then fr0 else Some (f (n - 1))) = (if n = 0 then fr0 else Some (f' (n - 1)))"
      using df(1,2) by (intro exI [of _ d] exI [of _ f]) simp
    then have "energy_loop sim n (d0, fr0) = Inr (d n, if n = 0 then fr0 else Some (f (n - 1)))"
      by (rule Suc.IH [THEN iffD2])
    moreover have "energy_step sim (d n) = Inr (d (Suc n), f n)" using df(2) by simp
    ultimately show "energy_loop sim (Suc n) (d0, fr0) = Inr (dn, frn)"
      unfolding energy_loop_snoc using df(3,4) by simp
  qed
qed


text \<open>
  C4. \<^verbatim>\<open>simulate\<close> returns a record exactly when 20 passes in a row succeed, starting
  from \<open>delta_t = 10\<close>: pass \<open>i\<close> calls \<^verbatim>\<open>calculate_flow_rate\<close> on the current \<open>delta_t\<close>,
  forms the mass flow, takes \<open>Q / (mass_flow c\<^sub>p)\<close> when the mass flow is positive (a zero
  divisor raises) and the old \<open>delta_t\<close> otherwise, and replaces \<open>delta_t\<close> by the mean of the
  old value and that one. The record carries the twentieth \<open>delta_t\<close> and the flow rate of
  the last pass. No positivity of the inputs is assumed.
\<close>

theorem twenty_relaxation_steps:
  "simulate sim initial_temp = Inr r \<longleftrightarrow>
     (\<exists>d f. d 0 = 10
        \<and> (\<forall>i<20. calculate_flow_rate sim (d i) = Inr (f i)
              \<and> (f i * density (fluid sim) > 0 \<longrightarrow>
                    f i * density (fluid sim) * specific_heat (fluid sim) \<noteq> 0)
              \<and> d (Suc i) = spec_relax sim (f i) (d i))
        \<and> r = \<lparr>flow_rate_m3_s = f 19, hot_leg_temp_C = cooler_temp sim + d 20,
                 cold_leg_temp_C = cooler_temp sim, temperature_difference_C = d 20,
                 fluid_name = name (fluid sim)\<rparr>)"
proof -
  let ?R = "\<lambda>dn fn. \<lparr>flow_rate_m3_s = fn, hot_leg_temp_C = cooler_temp sim + dn,
                 cold_leg_temp_C = cooler_temp sim, temperature_difference_C = dn,
                 fluid_name = name (fluid sim)\<rparr>"
  have a: "simulate sim initial_temp = Inr r \<longleftrightarrow>
      (\<exists>dn fn. energy_loop sim 20 (10, None) = Inr (dn, Some fn) \<and> r = ?R dn fn)"
    by (auto simp: simulate_def split: sum.splits option.splits prod.splits)
  have b: "(\<exists>dn fn. energy_loop sim 20 (10, None) = Inr (dn, Some fn) \<and> r = ?R dn fn)
      \<longleftrightarrow> (\<exists>d f. d 0 = 10
        \<and> (\<forall>i<20. energy_step sim (d i) = Inr (d (Suc i), f i))
        \<and> r = ?R (d 20) (f 19))"
  proof
    assume "\<exists>dn fn. energy_loop sim 20 (10, None) = Inr (dn, Some fn) \<and> r = ?R dn fn"
    then obtain dn fn where l: "energy_loop sim 20 (10, None) = Inr (dn, Some fn)"
      and r: "r = ?R dn fn" by blast
    from l [unfolded energy_loop_trace] obtain d f where "d 0 = 10"
      "\<forall>i<20. energy_step sim (d i) = Inr (d (Suc i), f i)" "dn = d 20" "fn = f 19"
      by auto
    then show "\<exists>d f. d 0 = 10
        \<and> (\<forall>i<20. energy_step sim (d i) = Inr (d (Suc i), f i))
        \<and> r = ?R (d 20) (f 19)"
      using r by blast
  next
    assume "\<exists>d f. d 0 = 10
        \<and> (\<forall>i<20. energy_step sim (d i) = Inr (d (Suc i), f i))
        \<and> r = ?R (d 20) (f 19)"
    then obtain d f where df: "d 0 = 10"
      "\<forall>i<20. energy_step sim (d i) = Inr (d (Suc i), f i)" "r = ?R (d 20) (f 19)"
      by blast
    have "\<exists>d' f'. d' 0 = 10 \<and> (\<forall>i<20. energy_step sim (d' i) = Inr (d' (Suc i), f' i))
        \<and> d 20 = d' 20
        \<and> Some (f 19) = (if (20::nat) = 0 then None else Some (f' (20 - 1)))"
      using df(1,2) by (intro exI [of _ d] exI [of _ f]) simp
    then have "energy_loop sim 20 (10, None) = Inr (d 20, Some (f 19))"
      by (rule energy_loop_trace [THEN iffD2])
    then show "\<exists>dn fn. energy_loop sim 20 (10, None) = Inr (dn, Some fn) \<and> r = ?R dn fn"
      using df(3) by blast
  qed
  show ?thesis unfolding a b energy_step_iff by (rule refl)
qed


lemma still_flow: "calculate_flow_rate still_sim d = Inr (0.1 * (pi * 0.25))"
proof -
  have f: "density (fluid still_sim) = 0" "viscosity (fluid still_sim) = 1"
    "pipe_diameter still_sim = 1" "loop_height still_sim = 1"
    "cross_section still_sim = pi * 0.25"
    by (simp_all add: still_sim_def NaturalCirculationSimulator_def Still_def power2_eq_square)
  have r: "residual still_sim 0 0.1 = Inr 0"
    using residual_value [of still_sim 0 "0.1"] by (simp add: f)
  have "velocity_loop still_sim 0 (Suc 99) 0.1 = Inr 0.1"
    using r by (rule velocity_loop_break) simp
  then have l: "velocity_loop still_sim 0 100 0.1 = Inr 0.1" by simp
  have h: "pressure_head still_sim d = 0" by (simp add: pressure_head_def f)
  have "final_velocity still_sim d = Inr 0.1"
    by (simp add: final_velocity_def reynolds_value pressure_drop_value f h l)
  then show ?thesis by (simp add: calculate_flow_rate_def f)
qed

lemma still_simulate:
  "simulate still_sim initial_temp
     = Inr \<lparr>flow_rate_m3_s = 0.1 * (pi * 0.25), hot_leg_temp_C = 30,
             cold_leg_temp_C = 20, temperature_difference_C = 10, fluid_name = ''Still''\<rparr>"
proof -
  have f: "density (fluid still_sim) = 0" "cooler_temp still_sim = 20"
    "name (fluid still_sim) = ''Still''"
    by (simp_all add: still_sim_def NaturalCirculationSimulator_def Still_def)
  have step: "energy_step still_sim d = Inr (d, 0.1 * (pi * 0.25))" for d
    by (simp add: energy_step_def still_flow f)
  have k: "((\<lambda>d::real. d) ^^ n) x = x" for n x by (induction n) simp_all
  have "energy_loop still_sim (Suc 19) (10, None)
      = Inr (((\<lambda>d. d) ^^ Suc 19) 10, Some (0.1 * (pi * 0.25)))"
    by (rule energy_loop_funpow [OF step])
  then have "energy_loop still_sim 20 (10, None) = Inr (10, Some (0.1 * (pi * 0.25)))"
    using k [of 20 10] by simp
  then show ?thesis by (simp add: simulate_def f)
qed

theorem twenty_relaxation_steps_witness:
  "\<exists>d f. d 0 = 10
     \<and> (\<forall>i<20. calculate_flow_rate still_sim (d i) = Inr (f i)
           \<and> d (Suc i) = spec_relax still_sim (f i) (d i))
     \<and> d 20 = 10 \<and> f 19 = 0.1 * (pi * 0.25)"
proof -
  obtain d f where df: "d 0 = 10"
     "\<forall>i<20. calculate_flow_rate still_sim (d i) = Inr (f i)
           \<and> (f i * density (fluid still_sim) > 0 \<longrightarrow>
                 f i * density (fluid still_sim) * specific_heat (fluid still_sim) \<noteq> 0)
           \<and> d (Suc i) = spec_relax still_sim (f i) (d i)"
     "\<lparr>flow_rate_m3_s = 0.1 * (pi * 0.25), hot_leg_temp_C = 30,
             cold_leg_temp_C = 20, temperature_difference_C = 10, fluid_name = ''Still''\<rparr>
      = \<lparr>flow_rate_m3_s = f 19, hot_leg_temp_C = cooler_temp still_sim + d 20,
                 cold_leg_temp_C = cooler_temp still_sim, temperature_difference_C = d 20,
                 fluid_name = name (fluid still_sim)\<rparr>"
    using twenty_relaxation_steps [THEN iffD1, OF still_simulate] by blast
  from df(3) have "d 20 = 10" "f 19 = 0.1 * (pi * 0.25)" by simp_all
  then show ?thesis using df(1,2) by blast
qed


lemma honey_sim_ok: "momentum_ok honey_sim"
  by (simp add: honey_sim_def momentum_ok_def NaturalCirculationSimulator_def Honey_def)

lemma honey_fields: "density (fluid honey_sim) = 1000" "viscosity (fluid honey_sim) = 10"
  "specific_heat (fluid honey_sim) = 2400" "pipe_diameter honey_sim = 0.032"
  "loop_height honey_sim = 1" "heater_power honey_sim = 46080 * pi"
  "cross_section honey_sim = pi * 0.000256"
  by (simp_all add: honey_sim_def NaturalCirculationSimulator_def Honey_def power2_eq_square)

lemma honey_residual:
  assumes "0 < v" "v < 600"
  shows "residual honey_sim head v = Inr (head - 1250000 * v)"
proof -
  have "friction_factor (1000 * v * 0.032 / 10) = 64 / (1000 * v * 0.032 / 10)"
    using assms by (simp add: friction_factor_def)
  then show ?thesis
    using assms residual_value [of honey_sim head v]
    by (simp add: honey_fields loop_length_def power2_eq_square)
qed

lemma honey_update:
  assumes "0 < v"
  shows "update_velocity honey_sim res v = Inr (max (v + res / (125000 * v)) 0.00001)"
  using assms update_velocity_value [OF honey_sim_ok assms, of res]
  by (simp add: honey_fields loop_length_def)

lemma honey_pass:
  assumes "0 < v" "v < 600" "\<not> \<bar>head - 1250000 * v\<bar> < 0.000001"
    and "max (v + (head - 1250000 * v) / (125000 * v)) 0.00001 = v'"
  shows "velocity_loop honey_sim head (Suc n) v = velocity_loop honey_sim head n v'"
proof (rule velocity_loop_step)
  show "residual honey_sim head v = Inr (head - 1250000 * v)"
    by (rule honey_residual [OF assms(1,2)])
  show "\<not> \<bar>head - 1250000 * v\<bar> < 0.000001" by (rule assms(3))
  show "update_velocity honey_sim (head - 1250000 * v) v = Inr v'"
    using honey_update [OF assms(1), of "head - 1250000 * v"] assms(4) by simp
qed

lemma not_within_tolerance:
  "x \<le> - 1 \<or> 1 \<le> x \<Longrightarrow> \<not> \<bar>x\<bar> < (0.000001::real)"
  by auto

lemma honey_velocity_bounds:
  assumes "10 \<le> d" "d \<le> 11"
  shows "6.48 < honey_velocity d" "honey_velocity d < 8.13"
  using assms by (simp_all add: honey_velocity_def)

lemma honey_pass_start:
  assumes "10 \<le> d" "d \<le> 11"
  shows "velocity_loop honey_sim (2.0601 * d) (Suc n) 0.1
    = velocity_loop honey_sim (2.0601 * d) n 0.00001"
proof (rule honey_pass)
  show "(0::real) < 0.1" "(0.1::real) < 600" by simp_all
  have "2.0601 * d - 1250000 * 0.1 \<le> - 1" using assms by simp
  then show "\<not> \<bar>2.0601 * d - 1250000 * 0.1\<bar> < 0.000001"
    by (intro not_within_tolerance) simp
  define y where "y = 2.0601 * d / 12500"
  have "(2.0601 * d - 1250000 * 0.1) / (125000 * 0.1) = y - 10"
    by (simp add: y_def diff_divide_distrib)
  moreover have "y \<le> 1" using assms by (simp add: y_def)
  ultimately have "0.1 + (2.0601 * d - 1250000 * 0.1) / (125000 * 0.1) \<le> 0.00001"
    by (simp only:) simp
  then show "max (0.1 + (2.0601 * d - 1250000 * 0.1) / (125000 * 0.1)) 0.00001 = 0.00001"
    by (simp add: max_def)
qed

lemma honey_pass_up:
  assumes "10 \<le> d" "d \<le> 11"
  shows "velocity_loop honey_sim (2.0601 * d) (Suc n) 0.00001
    = velocity_loop honey_sim (2.0601 * d) n (honey_velocity d)"
proof (rule honey_pass)
  show "(0::real) < 0.00001" "(0.00001::real) < 600" by simp_all
  have "1 \<le> 2.0601 * d - 1250000 * 0.00001" using assms by simp
  then show "\<not> \<bar>2.0601 * d - 1250000 * 0.00001\<bar> < 0.000001"
    by (intro not_within_tolerance) simp
  have e: "0.00001 + (2.0601 * d - 1250000 * 0.00001) / (125000 * 0.00001) = honey_velocity d"
    by (simp add: honey_velocity_def diff_divide_distrib)
  have "0.00001 \<le> honey_velocity d" using honey_velocity_bounds(1) [OF assms] by simp
  then show "max (0.00001 + (2.0601 * d - 1250000 * 0.00001) / (125000 * 0.00001)) 0.00001
      = honey_velocity d"
    unfolding e by (simp add: max_def)
qed

lemma honey_pass_down:
  assumes "10 \<le> d" "d \<le> 11"
  shows "velocity_loop honey_sim (2.0601 * d) (Suc n) (honey_velocity d)
    = velocity_loop honey_sim (2.0601 * d) n 0.00001"
proof (rule honey_pass)
  let ?A = "honey_velocity d"
  have b: "6.48 < ?A" "?A < 8.13" by (rule honey_velocity_bounds [OF assms])+
  show "0 < ?A" "?A < 600" using b by simp_all
  have "2.0601 * d \<le> 23" using assms by simp
  moreover have "8000000 < 1250000 * ?A" using b by simp
  ultimately have "2.0601 * d - 1250000 * ?A \<le> - 1" by simp
  then show "\<not> \<bar>2.0601 * d - 1250000 * ?A\<bar> < 0.000001"
    by (intro not_within_tolerance) simp
  define y where "y = 2.0601 * d / (125000 * ?A)"
  have "(2.0601 * d - 1250000 * ?A) / (125000 * ?A) = y - 10"
    using b by (simp add: y_def field_simps)
  moreover have "y \<le> 1"
    using b assms by (simp add: y_def field_simps)
  ultimately have "?A + (2.0601 * d - 1250000 * ?A) / (125000 * ?A) \<le> 0.00001"
    using b by (simp only:) simp
  then show "max (?A + (2.0601 * d - 1250000 * ?A) / (125000 * ?A)) 0.00001 = 0.00001"
    by (simp add: max_def)
qed

lemma honey_cycle:
  assumes "10 \<le> d" "d \<le> 11"
  shows "velocity_loop honey_sim (2.0601 * d) (Suc (2 * m)) 0.00001 = Inr (honey_velocity d)"
proof (induction m)
  case 0
  show ?case using honey_pass_up [OF assms, of 0] by simp
next
  case (Suc m)
  have "velocity_loop honey_sim (2.0601 * d) (Suc (Suc (Suc (2 * m)))) 0.00001
      = velocity_loop honey_sim (2.0601 * d) (Suc (Suc (2 * m))) (honey_velocity d)"
    by (rule honey_pass_up [OF assms])
  also have "\<dots> = velocity_loop honey_sim (2.0601 * d) (Suc (2 * m)) 0.00001"
    by (rule honey_pass_down [OF assms])
  finally have "velocity_loop honey_sim (2.0601 * d) (Suc (Suc (Suc (2 * m)))) 0.00001
      = Inr (honey_velocity d)"
    unfolding Suc.IH .
  moreover have "Suc (2 * Suc m) = Suc (Suc (Suc (2 * m)))" by simp
  ultimately show ?case by (simp only:)
qed

lemma honey_final_velocity:
  assumes "10 \<le> d" "d \<le> 11"
  shows "final_velocity honey_sim d = Inr (honey_velocity d)"
proof -
  have n: "(100::nat) = Suc (Suc (2 * 49))" by simp
  have h: "pressure_head honey_sim d = 2.0601 * d"
    by (simp add: pressure_head_def honey_fields)
  have s: "final_velocity honey_sim d
      = velocity_loop honey_sim (pressure_head honey_sim d) 100 0.1"
    by (simp add: final_velocity_def reynolds_value pressure_drop_value honey_fields)
  show ?thesis
    unfolding s h n honey_pass_start [OF assms] honey_cycle [OF assms] by (rule refl)
qed

lemma honey_flow_rate:
  assumes "10 \<le> d" "d \<le> 11"
  shows "calculate_flow_rate honey_sim d = Inr (honey_velocity d * (pi * 0.000256))"
  by (simp add: calculate_flow_rate_def honey_final_velocity [OF assms] honey_fields)

lemma honey_energy_step:
  assumes "10 \<le> d" "d \<le> 11"
  shows "energy_step honey_sim d
    = Inr (honey_relax d, honey_velocity d * (pi * 0.000256))"
proof -
  have b: "6.48 < honey_velocity d" by (rule honey_velocity_bounds [OF assms])
  have m: "0 < honey_velocity d * (pi * 0.000256) * 1000" using b by simp
  have nz: "honey_velocity d * (pi * 0.000256) * 1000 * 2400 \<noteq> 0" using b by simp
  have "46080 * pi / (honey_velocity d * (pi * 0.000256) * 1000 * 2400)
      = 75 / honey_velocity d"
    using b by (simp add: field_simps)
  then show ?thesis
    using m nz
    by (simp add: energy_step_def honey_flow_rate [OF assms] honey_fields py_div_def Let_def
        honey_relax_def del: mult_pos_pos)
qed


lemma honey_relax_decreasing:
  assumes "10 \<le> d" "d < e" "e \<le> 11"
  shows "honey_relax e < honey_relax d"
proof -
  define a where "a = honey_velocity d"
  define b where "b = honey_velocity e"
  have a: "6.48 < a" "a < 8.13"
    unfolding a_def by (rule honey_velocity_bounds; use assms in simp)+
  have b: "6.48 < b" "b < 8.13"
    unfolding b_def by (rule honey_velocity_bounds; use assms in simp)+
  have ba: "b - a = 1.64808 * (e - d)" by (simp add: a_def b_def honey_velocity_def)
  have ab: "a * b < 67"
  proof -
    have "a * b < 8.13 * 8.13" by (rule mult_strict_mono) (use a b in simp_all)
    then show ?thesis by simp
  qed
  have "75 / a - 75 / b = 75 * (b - a) / (a * b)"
    using a b by (simp add: field_simps)
  also have "\<dots> = 123.606 * (e - d) / (a * b)"
    unfolding ba using a b by (simp add: field_simps)
  finally have diff: "75 / a - 75 / b = 123.606 * (e - d) / (a * b)" .
  have p: "123.606 * (e - d) / 67 < 123.606 * (e - d) / (a * b)"
    by (rule divide_strict_left_mono) (use a b ab assms in simp_all)
  have "e - d < 123.606 * (e - d) / 67" using assms by simp
  then have "e - d < 123.606 * (e - d) / (a * b)" using p by (rule less_trans)
  then have "e - d < 75 / a - 75 / b" unfolding diff .
  then show ?thesis by (simp add: honey_relax_def a_def b_def)
qed

lemma honey_relax_bounds:
  assumes "10 \<le> d" "d \<le> 11"
  shows "10 \<le> honey_relax d" "honey_relax d \<le> 11"
proof -
  have hi: "honey_relax 10 \<le> 11" by (simp add: honey_relax_def honey_velocity_def)
  have lo: "10 \<le> honey_relax 11" by (simp add: honey_relax_def honey_velocity_def)
  show "10 \<le> honey_relax d"
  proof (cases "d = 11")
    case True
    then show ?thesis using lo by simp
  next
    case False
    then have "honey_relax 11 < honey_relax d"
      using assms by (intro honey_relax_decreasing) simp_all
    then show ?thesis using lo by simp
  qed
  show "honey_relax d \<le> 11"
  proof (cases "d = 10")
    case True
    then show ?thesis using hi by simp
  next
    case False
    then have "honey_relax d < honey_relax 10"
      using assms by (intro honey_relax_decreasing) simp_all
    then show ?thesis using hi by simp
  qed
qed

lemma honey_range_step:
  assumes "honey_range d"
  shows "honey_range (honey_relax d)"
proof -
  have d: "10 \<le> d" "d \<le> 11" "honey_relax d \<noteq> d" using assms by (simp_all add: honey_range_def)
  have r: "10 \<le> honey_relax d" "honey_relax d \<le> 11"
    by (rule honey_relax_bounds [OF d(1,2)])+
  have "honey_relax (honey_relax d) \<noteq> honey_relax d"
  proof (cases "d < honey_relax d")
    case True
    then have "honey_relax (honey_relax d) < honey_relax d"
      using d r by (intro honey_relax_decreasing) simp_all
    then show ?thesis by simp
  next
    case False
    then have "honey_relax d < d" using d(3) by simp
    then have "honey_relax d < honey_relax (honey_relax d)"
      using d r by (intro honey_relax_decreasing) simp_all
    then show ?thesis by simp
  qed
  then show ?thesis using r by (simp add: honey_range_def)
qed

lemma honey_range_start: "honey_range 10"
  by (simp add: honey_range_def honey_relax_def honey_velocity_def)

lemma honey_energy_loop_in_range:
  "honey_range d \<Longrightarrow>
   \<exists>d' fr'. energy_loop honey_sim n (d, fr) = Inr (d', fr') \<and> honey_range d'"
proof (induction n arbitrary: d fr)
  case 0
  then show ?case by simp
next
  case (Suc n)
  have r: "10 \<le> d" "d \<le> 11" using Suc.prems by (simp_all add: honey_range_def)
  have "honey_range (honey_relax d)" by (rule honey_range_step [OF Suc.prems])
  from Suc.IH [OF this] show ?case
    by (simp add: honey_energy_step [OF r])
qed

lemma honey_lag:
  "\<exists>r. simulate honey_sim initial_temp = Inr r
     \<and> calculate_flow_rate honey_sim (temperature_difference_C r) \<noteq> Inr (flow_rate_m3_s r)"
proof -
  obtain d19 fr where l: "energy_loop honey_sim 19 (10, None) = Inr (d19, fr)"
    and r19: "honey_range d19"
    using honey_energy_loop_in_range [OF honey_range_start] by blast
  define d20 where "d20 = honey_relax d19"
  have b19: "10 \<le> d19" "d19 \<le> 11" and ne: "d20 \<noteq> d19"
    using r19 by (simp_all add: honey_range_def d20_def)
  have r20: "honey_range d20" unfolding d20_def by (rule honey_range_step [OF r19])
  then have b20: "10 \<le> d20" "d20 \<le> 11" by (simp_all add: honey_range_def)
  have "energy_loop honey_sim (Suc 19) (10, None)
      = Inr (d20, Some (honey_velocity d19 * (pi * 0.000256)))"
    unfolding energy_loop_snoc l by (simp add: honey_energy_step [OF b19] d20_def)
  then have "energy_loop honey_sim 20 (10, None)
      = Inr (d20, Some (honey_velocity d19 * (pi * 0.000256)))"
    by simp
  then obtain r where r: "simulate honey_sim initial_temp = Inr r"
    "temperature_difference_C r = d20"
    "flow_rate_m3_s r = honey_velocity d19 * (pi * 0.000256)"
    by (simp add: simulate_def)
  have "calculate_flow_rate honey_sim d20 = Inr (honey_velocity d20 * (pi * 0.000256))"
    by (rule honey_flow_rate [OF b20])
  moreover have "honey_velocity d20 * (pi * 0.000256) \<noteq> honey_velocity d19 * (pi * 0.000256)"
    using ne by (simp add: honey_velocity_def)
  ultimately show ?thesis using r by auto
qed


text \<open>
  C3. Whenever \<^verbatim>\<open>simulate\<close> returns a record, its flow rate is \<^verbatim>\<open>calculate_flow_rate\<close> at
  the temperature difference the 20th pass started with, and the reported temperature
  difference is what that pass then relaxed it to. The two are in general not consistent:
  for the simulator \<open>honey_sim\<close>, whose outer iteration is still oscillating after 20
  passes, the flow rate at the reported temperature difference differs from the reported
  flow rate.
\<close>

theorem flow_rate_lags_one_step:
  "(\<forall>sim initial_temp r. simulate sim initial_temp = Inr r \<longrightarrow>
      (\<exists>d19 fr. energy_loop sim 19 (10, None) = Inr (d19, fr)
         \<and> calculate_flow_rate sim d19 = Inr (flow_rate_m3_s r)
         \<and> energy_step sim d19 = Inr (temperature_difference_C r, flow_rate_m3_s r)))
   \<and> (\<exists>r. simulate honey_sim 20 = Inr r
         \<and> calculate_flow_rate honey_sim (temperature_difference_C r) \<noteq> Inr (flow_rate_m3_s r))"
  using lag_structure honey_lag [of 20] by blast

theorem flow_rate_lags_one_step_witness:
  "\<exists>r d19 fr. simulate honey_sim 20 = Inr r
      \<and> energy_loop honey_sim 19 (10, None) = Inr (d19, fr)
      \<and> calculate_flow_rate honey_sim d19 = Inr (flow_rate_m3_s r)
      \<and> calculate_flow_rate honey_sim (temperature_difference_C r) \<noteq> Inr (flow_rate_m3_s r)"
proof -
  obtain r where r: "simulate honey_sim 20 = Inr r"
    "calculate_flow_rate honey_sim (temperature_difference_C r) \<noteq> Inr (flow_rate_m3_s r)"
    using flow_rate_lags_one_step by blast
  obtain d19 fr where "energy_loop honey_sim 19 (10, None) = Inr (d19, fr)"
    "calculate_flow_rate honey_sim d19 = Inr (flow_rate_m3_s r)"
    using flow_rate_lags_one_step r(1) by blast
  then show ?thesis using r by blast
qed

end
